theory Spec2Isabelle
  imports Main "HOL-Library.Multiset"
begin

unbundle bit_operations_syntax

section \<open>Data model\<close>

text \<open>
  The converters of \<^verbatim>\<open>music/src/core/data.ts\<close> translate between quantized note
  sequences and two-dimensional tensors. A note carries the fields the converters read or
  write; \<^verbatim>\<open>NoteSequence.Note.create\<close> leaves every field it is not given at its
  protobuf default (zero, false).
\<close>

record Note =
  pitch :: int
  quantizedStartStep :: int
  quantizedEndStep :: int
  isDrum :: bool
  program :: int
  instrument :: int

record NoteSequence =
  "notes" :: "Note list"
  totalQuantizedSteps :: nat

definition Note_create :: Note where
  "Note_create = \<lparr>pitch = 0, quantizedStartStep = 0, quantizedEndStep = 0, isDrum = False,
     program = 0, instrument = 0\<rparr>"

definition NoteSequence_create :: NoteSequence where
  "NoteSequence_create = \<lparr>notes = [], totalQuantizedSteps = 0\<rparr>"

text \<open>
  The errors a converter call can end with: the two \<^verbatim>\<open>throw\<close> statements of
  \<^verbatim>\<open>MelodyConverter.toTensor\<close>, and the shape assertion of the tensor library's
  \<^verbatim>\<open>concat\<close> and \<^verbatim>\<open>split\<close>.
\<close>

datatype error = NotMonophonic | PitchOutOfRange int | ShapeMismatch

subsection \<open>Constructor arguments\<close>

record BaseConverterArgs =
  numSteps :: "nat option"
  numSegments :: "nat option"

record MelodyConverterArgs = BaseConverterArgs +
  minPitch :: int
  maxPitch :: int

record DrumsConverterArgs = BaseConverterArgs +
  pitchClasses :: "int list list option"

record TrioConverterArgs = BaseConverterArgs +
  melArgs :: MelodyConverterArgs
  bassArgs :: MelodyConverterArgs
  drumsArgs :: DrumsConverterArgs

subsection \<open>Converter objects\<close>

text \<open>
  The fields of the abstract class \<^verbatim>\<open>DataConverter\<close> and of its subclasses. The
  subclasses \<^verbatim>\<open>DrumRollConverter\<close> and \<^verbatim>\<open>DrumsOneHotConverter\<close> add no field to
  \<^verbatim>\<open>DrumsConverter\<close>.
\<close>

record DataConverter =
  numSteps :: "nat option"
  numSegments :: "nat option"
  depth :: int

record MelodyConverter = DataConverter +
  minPitch :: int
  maxPitch :: int

record DrumsConverter = DataConverter +
  pitchClasses :: "int list list"
  pitchToClass :: "int \<rightharpoonup> nat"

record TrioConverter = DataConverter +
  melConverter :: MelodyConverter
  bassConverter :: MelodyConverter
  drumsConverter :: DrumsConverter

definition DEFAULT_DRUM_PITCH_CLASSES :: "int list list" where
  "DEFAULT_DRUM_PITCH_CLASSES =
    [[36, 35],
     [38, 27, 28, 31, 32, 33, 34, 37, 39, 40, 56, 65, 66, 75, 85],
     [42, 44, 54, 68, 69, 70, 71, 73, 78, 80],
     [46, 67, 72, 74, 79, 81],
     [45, 29, 41, 61, 64, 84],
     [48, 47, 60, 63, 77, 86, 87],
     [50, 30, 43, 62, 76, 83],
     [49, 55, 57, 58],
     [51, 52, 53, 59, 82]]"

definition NOTE_OFF :: int where "NOTE_OFF = 1"
definition FIRST_PITCH :: int where "FIRST_PITCH = 2"
definition MEL_PROG_RANGE :: "int \<times> int" where "MEL_PROG_RANGE = (0, 31)"
definition BASS_PROG_RANGE :: "int \<times> int" where "BASS_PROG_RANGE = (32, 39)"

section \<open>The tensor operations the converters use\<close>

text \<open>
  A two-dimensional tensor is the list of its rows. \<^verbatim>\<open>tf.oneHot(indices, depth)\<close>
  expands each label to a row of width \<open>depth\<close> holding a one at the label's column
  (an all-zero row for a label outside \<open>[0, depth)\<close>); \<^verbatim>\<open>argMax(1)\<close> gives for each
  row the first index of its greatest entry.
\<close>

definition oneHot :: "int list \<Rightarrow> int \<Rightarrow> int list list" where
  "oneHot indices d =
     map (\<lambda>l. map (\<lambda>j. if int j = l then 1 else 0) [0..<nat d]) indices"

fun argMax_scan :: "'a::linorder \<Rightarrow> nat \<Rightarrow> nat \<Rightarrow> 'a list \<Rightarrow> nat" where
  "argMax_scan m mi i [] = mi"
| "argMax_scan m mi i (x # xs) =
     (if m < x then argMax_scan x i (Suc i) xs else argMax_scan m mi (Suc i) xs)"

fun argMax_row :: "'a::linorder list \<Rightarrow> nat" where
  "argMax_row [] = 0"
| "argMax_row (x # xs) = argMax_scan x 0 1 xs"

definition argMax :: "'a::linorder list list \<Rightarrow> int list" where
  "argMax t = map (\<lambda>row. int (argMax_row row)) t"

text \<open>
  An \<^verbatim>\<open>Int32Array\<close> element and the left operand of \<^verbatim>\<open>>>\<close> hold an integer as its
  32-bit two's complement value: the integer modulo \<open>2 ^ 32\<close>, taken in
  \<open>[- 2 ^ 31, 2 ^ 31)\<close>.
\<close>

definition toInt32 :: "int \<Rightarrow> int" where
  "toInt32 x = (x + 2 ^ 31) mod 2 ^ 32 - 2 ^ 31"

text \<open>
  \<^verbatim>\<open>TensorBuffer.set(value, ...locs)\<close> stores into a typed array at the flat row-major
  index of \<open>locs\<close>, without a bounds check; a typed array ignores a store at an index
  that is negative, beyond its length, or not a number. The index is \<open>None\<close> when it
  was computed from \<^verbatim>\<open>undefined\<close>.
\<close>

definition buffer_set :: "int \<Rightarrow> int option \<Rightarrow> int list \<Rightarrow> int list" where
  "buffer_set v index vals =
     (case index of
        None \<Rightarrow> vals
      | Some i \<Rightarrow> if 0 \<le> i \<and> i < int (length vals) then vals[nat i := v] else vals)"

section \<open>MelodyConverter\<close>

definition MelodyConverter_new :: "MelodyConverterArgs \<Rightarrow> MelodyConverter" where
  "MelodyConverter_new args =
     \<lparr>numSteps = BaseConverterArgs.numSteps args,
      numSegments = BaseConverterArgs.numSegments args,
      depth = MelodyConverterArgs.maxPitch args - MelodyConverterArgs.minPitch args + 1
                + FIRST_PITCH,
      minPitch = MelodyConverterArgs.minPitch args,
      maxPitch = MelodyConverterArgs.maxPitch args\<rparr>"

text \<open>\<^verbatim>\<open>this.numSteps || noteSequence.totalQuantizedSteps\<close>: an absent or zero
  \<^verbatim>\<open>numSteps\<close> falls through to the sequence's own step count.\<close>

definition numSteps_or :: "nat option \<Rightarrow> NoteSequence \<Rightarrow> nat" where
  "numSteps_or ns noteSequence =
     (case ns of
        None \<Rightarrow> totalQuantizedSteps noteSequence
      | Some k \<Rightarrow> if k = 0 then totalQuantizedSteps noteSequence else k)"

text \<open>The body of \<^verbatim>\<open>sortedNotes.forEach\<close> in \<^verbatim>\<open>toTensor\<close>, threading the label
  buffer \<open>mel\<close> and \<open>lastEnd\<close>.\<close>

fun toTensor_forEach ::
  "('a MelodyConverter_scheme) \<Rightarrow> Note list \<Rightarrow> int list \<Rightarrow> int \<Rightarrow> error + int list" where
  "toTensor_forEach this [] mel lastEnd = Inr mel"
| "toTensor_forEach this (n # ns) mel lastEnd =
     (if quantizedStartStep n < lastEnd then Inl NotMonophonic
      else if pitch n < minPitch this \<or> pitch n > maxPitch this
        then Inl (PitchOutOfRange (pitch n))
      else toTensor_forEach this ns
             (buffer_set NOTE_OFF (Some (quantizedEndStep n))
               (buffer_set (pitch n - minPitch this + FIRST_PITCH)
                  (Some (quantizedStartStep n)) mel))
             (quantizedEndStep n))"

text \<open>
  \<^verbatim>\<open>MelodyConverter.toTensor\<close>. \<^verbatim>\<open>Array.prototype.sort\<close> sorts the array it is
  called on, in place and stably, so the call also changes the caller's sequence: the
  second component is the input sequence as the call leaves it.
\<close>

definition MelodyConverter_toTensor ::
  "('a MelodyConverter_scheme) \<Rightarrow> NoteSequence \<Rightarrow> (error + int list list) \<times> NoteSequence" where
  "MelodyConverter_toTensor this noteSequence =
     (let numSteps = numSteps_or (DataConverter.numSteps this) noteSequence;
          sortedNotes = sort_key quantizedStartStep (notes noteSequence);
          noteSequence' = noteSequence\<lparr>notes := sortedNotes\<rparr>;
          mel = replicate numSteps 0
      in (case toTensor_forEach this sortedNotes mel (- 1) of
            Inl e \<Rightarrow> Inl e
          | Inr mel' \<Rightarrow> Inr (oneHot mel' (depth this)),
          noteSequence'))"

text \<open>The scan of \<^verbatim>\<open>MelodyConverter.toNoteSequence\<close> over the labels, from step \<open>s\<close>,
  with the open note \<open>currNote\<close> and the notes pushed so far.\<close>

function toNoteSequence_loop ::
  "('a MelodyConverter_scheme) \<Rightarrow> int list \<Rightarrow> nat \<Rightarrow> Note option \<Rightarrow> Note list
     \<Rightarrow> Note option \<times> Note list" where
  "toNoteSequence_loop this labels s currNote ns =
     (if s < length labels then
        (let label = labels ! s in
         if label = 0 then toNoteSequence_loop this labels (Suc s) currNote ns
         else if label = 1 then
           (case currNote of
              Some c \<Rightarrow>
                toNoteSequence_loop this labels (Suc s) None
                  (ns @ [c\<lparr>quantizedEndStep := int s\<rparr>])
            | None \<Rightarrow> toNoteSequence_loop this labels (Suc s) None ns)
         else
           toNoteSequence_loop this labels (Suc s)
             (Some (Note_create\<lparr>pitch := label - FIRST_PITCH + minPitch this,
                                quantizedStartStep := int s\<rparr>))
             (case currNote of
                Some c \<Rightarrow> ns @ [c\<lparr>quantizedEndStep := int s\<rparr>]
              | None \<Rightarrow> ns))
      else (currNote, ns))"
  by pat_completeness auto
termination
  by (relation "measure (\<lambda>(this, labels, s, currNote, ns). length labels - s)") auto

declare toNoteSequence_loop.simps [simp del]

definition MelodyConverter_toNoteSequence ::
  "('a MelodyConverter_scheme) \<Rightarrow> 'b::linorder list list \<Rightarrow> NoteSequence" where
  "MelodyConverter_toNoteSequence this oh =
     (let labels = argMax oh in
      case toNoteSequence_loop this labels 0 None [] of
        (None, ns) \<Rightarrow> NoteSequence_create\<lparr>notes := ns\<rparr>
      | (Some c, ns) \<Rightarrow>
          NoteSequence_create\<lparr>notes := ns @ [c\<lparr>quantizedEndStep := int (length labels)\<rparr>]\<rparr>)"

section \<open>DrumsConverter and DrumsOneHotConverter\<close>

text \<open>The constructor fills \<^verbatim>\<open>pitchToClass\<close> class by class, so a pitch listed in
  several classes ends up mapped to the last of them.\<close>

definition set_class :: "int list list \<Rightarrow> nat \<Rightarrow> (int \<rightharpoonup> nat) \<Rightarrow> (int \<rightharpoonup> nat)" where
  "set_class pcs c m = fold (\<lambda>p m'. m'(p \<mapsto> c)) (pcs ! c) m"

definition build_pitchToClass :: "int list list \<Rightarrow> (int \<rightharpoonup> nat)" where
  "build_pitchToClass pcs = fold (set_class pcs) [0..<length pcs] Map.empty"

definition DrumsConverter_new :: "DrumsConverterArgs \<Rightarrow> DrumsConverter" where
  "DrumsConverter_new args =
     (let pcs = (case DrumsConverterArgs.pitchClasses args of
                   None \<Rightarrow> DEFAULT_DRUM_PITCH_CLASSES
                 | Some given \<Rightarrow> given)
      in \<lparr>numSteps = BaseConverterArgs.numSteps args,
          numSegments = BaseConverterArgs.numSegments args,
          depth = int (length pcs),
          pitchClasses = pcs,
          pitchToClass = build_pitchToClass pcs\<rparr>)"

definition DrumsOneHotConverter_new :: "DrumsConverterArgs \<Rightarrow> DrumsConverter" where
  "DrumsOneHotConverter_new args =
     (let this = DrumsConverter_new args
      in this\<lparr>depth := 2 ^ length (pitchClasses this)\<rparr>)"

text \<open>
  \<^verbatim>\<open>DrumsConverter.toTensor\<close> fills a buffer of shape \<open>[numSteps, classes + 1]\<close>, held
  as its flat row-major values. A location \<open>(i, j)\<close> has the flat index
  \<open>i * width + j\<close>, also for the column \<open>- 1\<close> the source passes; the class of a
  pitch outside the table is \<^verbatim>\<open>undefined\<close>, which makes the index not a number.
\<close>

definition drumRoll_init :: "nat \<Rightarrow> nat \<Rightarrow> int list \<Rightarrow> int list" where
  "drumRoll_init steps width vals =
     fold (\<lambda>i b. buffer_set 1 (Some (int i * int width + (- 1))) b) [0..<steps] vals"

definition drumRoll_note ::
  "('a DrumsConverter_scheme) \<Rightarrow> nat \<Rightarrow> Note \<Rightarrow> int list \<Rightarrow> int list" where
  "drumRoll_note this width note vals =
     buffer_set 0 (Some (quantizedStartStep note * int width + (- 1)))
       (buffer_set 1
          (case pitchToClass this (pitch note) of
             None \<Rightarrow> None
           | Some c \<Rightarrow> Some (quantizedStartStep note * int width + int c))
          vals)"

definition buffer_toTensor :: "nat \<Rightarrow> nat \<Rightarrow> int list \<Rightarrow> int list list" where
  "buffer_toTensor steps width vals =
     map (\<lambda>i. take width (drop (i * width) vals)) [0..<steps]"

definition DrumsConverter_toTensor ::
  "('a DrumsConverter_scheme) \<Rightarrow> NoteSequence \<Rightarrow> (error + int list list) \<times> NoteSequence" where
  "DrumsConverter_toTensor this noteSequence =
     (let numSteps = numSteps_or (DataConverter.numSteps this) noteSequence;
          width = length (pitchClasses this) + 1;
          drumRoll = drumRoll_init numSteps width (replicate (numSteps * width) 0);
          drumRoll' = fold (drumRoll_note this width) (notes noteSequence) drumRoll
      in (Inr (buffer_toTensor numSteps width drumRoll'), noteSequence))"

text \<open>\<^verbatim>\<open>this.pitchClasses[p][0]\<close>; for an empty class it is \<^verbatim>\<open>undefined\<close>, and
  \<^verbatim>\<open>Note.create\<close> then leaves the pitch at its default.\<close>

definition firstPitch :: "int list \<Rightarrow> int" where
  "firstPitch cls = (case cls of [] \<Rightarrow> pitch Note_create | p # _ \<Rightarrow> p)"

text \<open>
  \<^verbatim>\<open>DrumsConverter.toNoteSequence\<close>, inherited by \<^verbatim>\<open>DrumsOneHotConverter\<close>: for each
  step and each class \<open>p\<close>, in this order, a one-step drum note when
  \<^verbatim>\<open>labels[s] >> p & 1\<close> is not zero. The shift is JavaScript's: it takes the label as
  a 32-bit integer, shifts it right by \<open>p\<close> modulo 32 keeping the sign, and the
  \<^verbatim>\<open>& 1\<close> reads the lowest bit of the result.
\<close>

definition DrumsConverter_toNoteSequence ::
  "('a DrumsConverter_scheme) \<Rightarrow> 'b::linorder list list \<Rightarrow> NoteSequence" where
  "DrumsConverter_toNoteSequence this oh =
     (let labels = argMax oh in
      NoteSequence_create\<lparr>notes :=
        concat (map (\<lambda>s.
          concat (map (\<lambda>p.
            if (drop_bit (p mod 32) (toInt32 (labels ! s))) AND 1 \<noteq> 0
            then [Note_create\<lparr>pitch := firstPitch (pitchClasses this ! p),
                               quantizedStartStep := int s,
                               quantizedEndStep := int s + 1,
                               isDrum := True\<rparr>]
            else [])
          [0..<length (pitchClasses this)]))
        [0..<length labels])\<rparr>)"

text \<open>
  \<^verbatim>\<open>DrumsOneHotConverter.toTensor\<close> keeps its labels in a plain array of numbers. An
  entry is \<open>None\<close> when it is not a number: \<^verbatim>\<open>Math.pow(2, undefined)\<close>, or an
  element read beyond the array's end. \<^verbatim>\<open>labels[i] += v\<close> at \<open>i\<close> beyond the end
  extends the array; at a negative \<open>i\<close> it leaves the elements alone.
  \<^verbatim>\<open>tf.tensor1d(labels, 'int32')\<close> copies the array into an \<^verbatim>\<open>Int32Array\<close>, which
  stores zero for an entry that is not a number and wraps every other entry to 32 bits.
\<close>

definition labels_add :: "int option list \<Rightarrow> int \<Rightarrow> int option \<Rightarrow> int option list" where
  "labels_add labels i v =
     (if i < 0 then labels
      else if nat i < length labels then
        labels[nat i := (case (labels ! nat i, v) of
                           (Some a, Some b) \<Rightarrow> Some (a + b)
                         | _ \<Rightarrow> None)]
      else labels @ replicate (nat i - length labels) None @ [None])"

definition tensor1d_int32 :: "int option list \<Rightarrow> int list" where
  "tensor1d_int32 labels = map (\<lambda>x. case x of None \<Rightarrow> 0 | Some v \<Rightarrow> toInt32 v) labels"

definition DrumsOneHotConverter_labels ::
  "('a DrumsConverter_scheme) \<Rightarrow> Note list \<Rightarrow> int option list \<Rightarrow> int option list" where
  "DrumsOneHotConverter_labels this ns labels =
     fold (\<lambda>n ls. labels_add ls (quantizedStartStep n)
                    (case pitchToClass this (pitch n) of
                       None \<Rightarrow> None
                     | Some c \<Rightarrow> Some (2 ^ c)))
       ns labels"

definition DrumsOneHotConverter_toTensor ::
  "('a DrumsConverter_scheme) \<Rightarrow> NoteSequence \<Rightarrow> (error + int list list) \<times> NoteSequence" where
  "DrumsOneHotConverter_toTensor this noteSequence =
     (let numSteps = numSteps_or (DataConverter.numSteps this) noteSequence;
          labels = DrumsOneHotConverter_labels this (notes noteSequence)
                     (replicate numSteps (Some 0))
      in (Inr (oneHot (tensor1d_int32 labels) (depth this)), noteSequence))"

section \<open>TrioConverter\<close>

text \<open>
  \<^verbatim>\<open>tf.concat(tensors, -1)\<close> appends the rows of the tensors side by side and
  \<^verbatim>\<open>tf.split(t, sizes, -1)\<close> cuts every row into consecutive pieces of the given
  widths; both reject operands whose shapes do not fit.
\<close>

definition tf_concat :: "'a list list list \<Rightarrow> error + 'a list list" where
  "tf_concat ts =
     (case ts of
        [] \<Rightarrow> Inl ShapeMismatch
      | t # rest \<Rightarrow>
          if list_all (\<lambda>u. length u = length t) rest
          then Inr (map (\<lambda>i. concat (map (\<lambda>u. u ! i) ts)) [0..<length t])
          else Inl ShapeMismatch)"

definition tf_split :: "'a list list \<Rightarrow> nat list \<Rightarrow> error + 'a list list list" where
  "tf_split t sizes =
     (if list_all (\<lambda>row. length row = sum_list sizes) t
      then Inr (map (\<lambda>k. map (\<lambda>row. take (sizes ! k) (drop (sum_list (take k sizes)) row)) t)
                  [0..<length sizes])
      else Inl ShapeMismatch)"

text \<open>Modelled from the spec: \<^verbatim>\<open>sequences.clone\<close> (\<^verbatim>\<open>core/sequences.ts\<close> is not among
  the sources) returns a copy of the sequence it is given; as a value, the copy is the
  sequence.\<close>

definition clone :: "NoteSequence \<Rightarrow> NoteSequence" where
  "clone noteSequence = noteSequence"

text \<open>
  The constructor copies \<^verbatim>\<open>args.numSteps\<close> into the three argument records it was
  handed before it builds the sub-converters from them; the second component is the
  argument object as the constructor leaves it.
\<close>

definition TrioConverter_new :: "TrioConverterArgs \<Rightarrow> TrioConverter \<times> TrioConverterArgs" where
  "TrioConverter_new args =
     (let args1 = args\<lparr>melArgs :=
                    (melArgs args)\<lparr>BaseConverterArgs.numSteps := BaseConverterArgs.numSteps args\<rparr>\<rparr>;
          args2 = args1\<lparr>bassArgs :=
                    (bassArgs args1)\<lparr>BaseConverterArgs.numSteps := BaseConverterArgs.numSteps args1\<rparr>\<rparr>;
          args3 = args2\<lparr>drumsArgs :=
                    (drumsArgs args2)\<lparr>BaseConverterArgs.numSteps := BaseConverterArgs.numSteps args2\<rparr>\<rparr>;
          mel = MelodyConverter_new (melArgs args3);
          bass = MelodyConverter_new (bassArgs args3);
          drums = DrumsOneHotConverter_new (drumsArgs args3)
      in (\<lparr>numSteps = BaseConverterArgs.numSteps args,
           numSegments = BaseConverterArgs.numSegments args,
           depth = depth mel + depth bass + depth drums,
           melConverter = mel,
           bassConverter = bass,
           drumsConverter = drums\<rparr>,
          args3))"

definition isMelNote :: "Note \<Rightarrow> bool" where
  "isMelNote n \<longleftrightarrow>
     \<not> isDrum n \<and> program n \<ge> fst MEL_PROG_RANGE \<and> program n \<le> snd MEL_PROG_RANGE"

definition isBassNote :: "Note \<Rightarrow> bool" where
  "isBassNote n \<longleftrightarrow>
     \<not> isDrum n \<and> program n \<ge> fst BASS_PROG_RANGE \<and> program n \<le> snd BASS_PROG_RANGE"

text \<open>
  \<^verbatim>\<open>TrioConverter.toTensor\<close>. Each sub-converter is handed a clone whose note array is
  the fresh array \<^verbatim>\<open>filter\<close> returns, so what the sub-converters do to their argument
  does not reach the caller's sequence. The array literal evaluates the three encodings
  in order, and the first failure ends the call.
\<close>

definition TrioConverter_toTensor ::
  "('a TrioConverter_scheme) \<Rightarrow> NoteSequence \<Rightarrow> (error + int list list) \<times> NoteSequence" where
  "TrioConverter_toTensor this noteSequence =
     (let melSeq = (clone noteSequence)\<lparr>notes := filter isMelNote (notes noteSequence)\<rparr>;
          bassSeq = (clone noteSequence)\<lparr>notes := filter isBassNote (notes noteSequence)\<rparr>;
          drumsSeq = (clone noteSequence)\<lparr>notes := filter isDrum (notes noteSequence)\<rparr>
      in (case fst (MelodyConverter_toTensor (melConverter this) melSeq) of
            Inl e \<Rightarrow> Inl e
          | Inr mel \<Rightarrow>
              (case fst (MelodyConverter_toTensor (bassConverter this) bassSeq) of
                 Inl e \<Rightarrow> Inl e
               | Inr bass \<Rightarrow>
                   (case fst (DrumsOneHotConverter_toTensor (drumsConverter this) drumsSeq) of
                      Inl e \<Rightarrow> Inl e
                    | Inr drums \<Rightarrow> tf_concat [mel, bass, drums])),
          noteSequence))"

definition TrioConverter_toNoteSequence ::
  "('a TrioConverter_scheme) \<Rightarrow> 'b::linorder list list \<Rightarrow> error + NoteSequence" where
  "TrioConverter_toNoteSequence this th =
     (case tf_split th [nat (depth (melConverter this)), nat (depth (bassConverter this)),
                        nat (depth (drumsConverter this))] of
        Inl e \<Rightarrow> Inl e
      | Inr ohs \<Rightarrow>
          (let ns = MelodyConverter_toNoteSequence (melConverter this) (ohs ! 0);
               ns1 = ns\<lparr>notes := map (\<lambda>n. n\<lparr>instrument := 0, program := 0\<rparr>) (notes ns)\<rparr>;
               bassNs = MelodyConverter_toNoteSequence (bassConverter this) (ohs ! 1);
               ns2 = ns1\<lparr>notes := notes ns1 @
                        map (\<lambda>n. n\<lparr>instrument := 1, program := fst BASS_PROG_RANGE\<rparr>)
                          (notes bassNs)\<rparr>;
               drumsNs = DrumsConverter_toNoteSequence (drumsConverter this) (ohs ! 2);
               ns3 = ns2\<lparr>notes := notes ns2 @
                        map (\<lambda>n. n\<lparr>instrument := 2\<rparr>) (notes drumsNs)\<rparr>
           in Inr ns3))"

section \<open>Predicates and example inputs of the properties\<close>

text \<open>Some note of the list, other than the first, starts strictly before the end of the
  note just before it.\<close>

fun starts_before_previous_end :: "Note list \<Rightarrow> bool" where
  "starts_before_previous_end [] = False"
| "starts_before_previous_end [n] = False"
| "starts_before_previous_end (m # n # ns) =
     (quantizedStartStep n < quantizedEndStep m \<or> starts_before_previous_end (n # ns))"

definition out_of_range :: "('a MelodyConverter_scheme) \<Rightarrow> Note \<Rightarrow> bool" where
  "out_of_range this n \<longleftrightarrow> pitch n < minPitch this \<or> pitch n > maxPitch this"

definition pitches_in_range :: "('a MelodyConverter_scheme) \<Rightarrow> Note list \<Rightarrow> bool" where
  "pitches_in_range this ns = list_all (\<lambda>n. \<not> out_of_range this n) ns"

text \<open>The data model's bound on start steps: none is negative.\<close>

definition nonnegative_starts :: "Note list \<Rightarrow> bool" where
  "nonnegative_starts ns = list_all (\<lambda>n. 0 \<le> quantizedStartStep n) ns"

definition example_note :: "int \<Rightarrow> int \<Rightarrow> int \<Rightarrow> Note" where
  "example_note p s e =
     Note_create\<lparr>pitch := p, quantizedStartStep := s, quantizedEndStep := e\<rparr>"

definition example_melody_args :: MelodyConverterArgs where
  "example_melody_args =
     \<lparr>BaseConverterArgs.numSteps = Some 4, BaseConverterArgs.numSegments = None,
      MelodyConverterArgs.minPitch = 60, MelodyConverterArgs.maxPitch = 72\<rparr>"

definition example_melody :: MelodyConverter where
  "example_melody = MelodyConverter_new example_melody_args"

definition example_piano :: MelodyConverter where
  "example_piano = MelodyConverter_new
     \<lparr>BaseConverterArgs.numSteps = Some 8, BaseConverterArgs.numSegments = None,
      MelodyConverterArgs.minPitch = 21, MelodyConverterArgs.maxPitch = 108\<rparr>"

text \<open>Two notes given out of start order; the first to sound ends where the second
  starts, and the second ends at step 4.\<close>

definition example_tune :: NoteSequence where
  "example_tune =
     \<lparr>notes = [example_note 62 2 4, example_note 60 0 2], totalQuantizedSteps = 4\<rparr>"

text \<open>One note from step 0 to the last step.\<close>

definition example_whole :: NoteSequence where
  "example_whole = \<lparr>notes = [example_note 60 0 4], totalQuantizedSteps = 4\<rparr>"

definition example_overlap :: NoteSequence where
  "example_overlap =
     \<lparr>notes = [example_note 60 0 5, example_note 62 3 8], totalQuantizedSteps = 8\<rparr>"

definition example_low_note :: NoteSequence where
  "example_low_note = \<lparr>notes = [example_note 20 0 5], totalQuantizedSteps = 8\<rparr>"

definition example_low_overlap :: NoteSequence where
  "example_low_overlap =
     \<lparr>notes = [example_note 60 0 5, example_note 20 3 8], totalQuantizedSteps = 8\<rparr>"

text \<open>A decoded note is well formed below a bound: it starts at a step that is not
  negative, ends after it starts and not after the bound, and its pitch is in range.\<close>

definition well_formed_note :: "('a MelodyConverter_scheme) \<Rightarrow> int \<Rightarrow> Note \<Rightarrow> bool" where
  "well_formed_note this bound n \<longleftrightarrow>
     0 \<le> quantizedStartStep n \<and> quantizedStartStep n < quantizedEndStep n \<and>
     quantizedEndStep n \<le> bound \<and> \<not> out_of_range this n"

text \<open>What the scan of \<^verbatim>\<open>MelodyConverter.toNoteSequence\<close> maintains on reaching step
  \<open>s\<close>: the notes pushed so far are well formed, in order, and end before the open note
  starts; the open note started before \<open>s\<close>.\<close>

definition scan_invariant ::
  "('a MelodyConverter_scheme) \<Rightarrow> nat \<Rightarrow> Note option \<Rightarrow> Note list \<Rightarrow> bool" where
  "scan_invariant this s currNote ns \<longleftrightarrow>
     list_all (well_formed_note this
        (case currNote of None \<Rightarrow> int s | Some c \<Rightarrow> quantizedStartStep c)) ns \<and>
     \<not> starts_before_previous_end ns \<and>
     (case currNote of
        None \<Rightarrow> True
      | Some c \<Rightarrow> 0 \<le> quantizedStartStep c \<and> quantizedStartStep c < int s \<and>
                  \<not> out_of_range this c)"

text \<open>The pitch appears in some class of the table.\<close>

definition in_pitchClasses :: "int list list \<Rightarrow> int \<Rightarrow> bool" where
  "in_pitchClasses pcs p = list_ex (\<lambda>cls. p \<in> set cls) pcs"

text \<open>The number of steps a drum converter built from \<open>args\<close> encodes.\<close>

definition DrumsConverter_steps :: "DrumsConverterArgs \<Rightarrow> NoteSequence \<Rightarrow> nat" where
  "DrumsConverter_steps args seq = numSteps_or (BaseConverterArgs.numSteps args) seq"

definition example_small_args :: MelodyConverterArgs where
  "example_small_args =
     \<lparr>BaseConverterArgs.numSteps = None, BaseConverterArgs.numSegments = None,
      MelodyConverterArgs.minPitch = 60, MelodyConverterArgs.maxPitch = 61\<rparr>"

definition example_buffer :: "int list list" where
  "example_buffer =
     [[0, 0, 1, 0], [5, 5, 5, 5], [0, 7, 0, 0], [0, 0, 0, 9], [1, 0, 0, 0]]"

definition example_drums_args :: DrumsConverterArgs where
  "example_drums_args =
     \<lparr>BaseConverterArgs.numSteps = Some 2, BaseConverterArgs.numSegments = None,
      DrumsConverterArgs.pitchClasses = Some [[36], [38]]\<rparr>"

definition example_unmapped :: NoteSequence where
  "example_unmapped =
     \<lparr>notes = [(example_note 99 0 1)\<lparr>isDrum := True\<rparr>], totalQuantizedSteps = 2\<rparr>"

definition example_trio_args :: TrioConverterArgs where
  "example_trio_args =
     \<lparr>BaseConverterArgs.numSteps = Some 2, BaseConverterArgs.numSegments = None,
      melArgs = \<lparr>BaseConverterArgs.numSteps = Some 7, BaseConverterArgs.numSegments = None,
                 MelodyConverterArgs.minPitch = 60, MelodyConverterArgs.maxPitch = 61\<rparr>,
      bassArgs = \<lparr>BaseConverterArgs.numSteps = None, BaseConverterArgs.numSegments = None,
                  MelodyConverterArgs.minPitch = 40, MelodyConverterArgs.maxPitch = 41\<rparr>,
      drumsArgs = example_drums_args\<rparr>"

definition example_trio :: TrioConverter where
  "example_trio = fst (TrioConverter_new example_trio_args)"

text \<open>A drum hit, two melody notes and a bass note, and a note of program 50 that
  belongs to none of the three parts.\<close>

definition example_parts :: "Note list" where
  "example_parts =
     [(example_note 36 0 1)\<lparr>isDrum := True\<rparr>, example_note 61 1 2, example_note 60 0 1,
      (example_note 40 0 2)\<lparr>program := 32\<rparr>]"

definition example_stray :: Note where
  "example_stray = (example_note 40 0 2)\<lparr>program := 50\<rparr>"

definition example_band :: NoteSequence where
  "example_band = \<lparr>notes = example_parts @ [example_stray], totalQuantizedSteps = 2\<rparr>"

definition example_trio_tensor :: "int list list" where
  "example_trio_tensor =
     [[0, 0, 1, 0, 0, 0, 1, 0, 0, 1, 0, 0],
      [0, 0, 0, 1, 1, 0, 0, 0, 1, 0, 0, 0]]"

definition example_trio_notes :: "Note list" where
  "example_trio_notes =
     [example_note 60 0 1, example_note 61 1 2,
      (example_note 40 0 2)\<lparr>program := 32, instrument := 1\<rparr>,
      (example_note 36 0 1)\<lparr>isDrum := True, instrument := 2\<rparr>]"










text \<open>The two stores \<^verbatim>\<open>toTensor\<close> makes for a note: its note-on label at its start, then
  the note-off label at its end.\<close>

definition mel_write :: "('a MelodyConverter_scheme) \<Rightarrow> Note \<Rightarrow> int list \<Rightarrow> int list" where
  "mel_write this n mel =
     buffer_set NOTE_OFF (Some (quantizedEndStep n))
       (buffer_set (pitch n - minPitch this + FIRST_PITCH) (Some (quantizedStartStep n)) mel)"









section \<open>MelodyConverter.toTensor: the two failures\<close>

lemma toTensor_result:
  "fst (MelodyConverter_toTensor this seq) =
     (case toTensor_forEach this (sort_key quantizedStartStep (notes seq))
             (replicate (numSteps_or (DataConverter.numSteps this) seq) 0) (- 1) of
        Inl e \<Rightarrow> Inl e
      | Inr mel' \<Rightarrow> Inr (oneHot mel' (depth this)))"
  by (simp add: MelodyConverter_toTensor_def Let_def)

lemma hd_sort_key_in: "xs \<noteq> [] \<Longrightarrow> hd (sort_key f xs) \<in> set xs"
  by (metis hd_in_set set_sort length_0_conv length_sort)

lemma first_start_not_before:
  assumes "nonnegative_starts ns"
  shows "\<not> (sort_key quantizedStartStep ns \<noteq> [] \<and>
            quantizedStartStep (hd (sort_key quantizedStartStep ns)) < - 1)"
proof
  assume a: "sort_key quantizedStartStep ns \<noteq> [] \<and>
             quantizedStartStep (hd (sort_key quantizedStartStep ns)) < - 1"
  then have "ns \<noteq> []" by auto
  then have "hd (sort_key quantizedStartStep ns) \<in> set ns" by (rule hd_sort_key_in)
  with assms have "0 \<le> quantizedStartStep (hd (sort_key quantizedStartStep ns))"
    by (simp add: nonnegative_starts_def list_all_iff)
  with a show False by simp
qed

lemma forEach_in_range:
  assumes "pitches_in_range this ns"
  shows "toTensor_forEach this ns mel lastEnd = Inl NotMonophonic \<or>
         (\<exists>mel'. toTensor_forEach this ns mel lastEnd = Inr mel')"
  using assms
  by (induction ns arbitrary: mel lastEnd) (auto simp: pitches_in_range_def out_of_range_def)

lemma forEach_NotMonophonic_only_if:
  assumes "toTensor_forEach this ns mel lastEnd = Inl NotMonophonic"
  shows "(ns \<noteq> [] \<and> quantizedStartStep (hd ns) < lastEnd) \<or> starts_before_previous_end ns"
  using assms
proof (induction ns arbitrary: mel lastEnd)
  case Nil
  then show ?case by simp
next
  case (Cons n ns)
  show ?case
  proof (cases "quantizedStartStep n < lastEnd")
    case True
    then show ?thesis by simp
  next
    case False
    with Cons.prems have rest: "toTensor_forEach this ns
             (buffer_set NOTE_OFF (Some (quantizedEndStep n))
               (buffer_set (pitch n - minPitch this + FIRST_PITCH)
                  (Some (quantizedStartStep n)) mel))
             (quantizedEndStep n) = Inl NotMonophonic"
      by (auto split: if_splits)
    from Cons.IH [OF rest] show ?thesis by (cases ns) auto
  qed
qed

lemma forEach_NotMonophonic_iff:
  assumes "pitches_in_range this ns"
  shows "toTensor_forEach this ns mel lastEnd = Inl NotMonophonic \<longleftrightarrow>
         (ns \<noteq> [] \<and> quantizedStartStep (hd ns) < lastEnd) \<or> starts_before_previous_end ns"
  using assms
proof (induction ns arbitrary: mel lastEnd)
  case Nil
  then show ?case by simp
next
  case (Cons n ns)
  then show ?case by (cases ns) (auto simp: pitches_in_range_def out_of_range_def)
qed

lemma forEach_out_of_range_fails:
  assumes "\<exists>n \<in> set ns. out_of_range this n"
  shows "toTensor_forEach this ns mel lastEnd = Inl NotMonophonic \<or>
         (\<exists>n \<in> set ns. out_of_range this n \<and>
            toTensor_forEach this ns mel lastEnd = Inl (PitchOutOfRange (pitch n)))"
  using assms
  by (induction ns arbitrary: mel lastEnd) (auto simp: out_of_range_def)

text \<open>
  Claim C4. For a sequence whose pitches all lie in \<open>[minPitch, maxPitch]\<close> (and whose
  start steps are not negative, as the data model has them),
  \<^verbatim>\<open>MelodyConverter.toTensor\<close> raises the not-monophonic error exactly when, in the
  order of start steps, some note starts strictly before the end of the note preceding
  it; otherwise it returns a tensor. So a note that ends where the next one starts is
  accepted, and so is a note from step 0 to \<open>numSteps\<close>.
\<close>

theorem toTensor_NotMonophonic_iff:
  assumes "pitches_in_range this (notes seq)"
    and "nonnegative_starts (notes seq)"
  shows "(fst (MelodyConverter_toTensor this seq) = Inl NotMonophonic \<longleftrightarrow>
            starts_before_previous_end (sort_key quantizedStartStep (notes seq))) \<and>
         (\<not> starts_before_previous_end (sort_key quantizedStartStep (notes seq)) \<longrightarrow>
            (\<exists>t. fst (MelodyConverter_toTensor this seq) = Inr t))"
proof -
  let ?sorted = "sort_key quantizedStartStep (notes seq)"
  let ?mel = "replicate (numSteps_or (DataConverter.numSteps this) seq) (0::int)"
  have inr: "pitches_in_range this ?sorted"
    using assms(1) by (simp add: pitches_in_range_def list_all_iff)
  have first: "\<not> (?sorted \<noteq> [] \<and> quantizedStartStep (hd ?sorted) < - 1)"
    by (rule first_start_not_before [OF assms(2)])
  have iff: "toTensor_forEach this ?sorted ?mel (- 1) = Inl NotMonophonic \<longleftrightarrow>
             starts_before_previous_end ?sorted"
    using forEach_NotMonophonic_iff [OF inr, of ?mel "- 1"] first by blast
  have alt: "toTensor_forEach this ?sorted ?mel (- 1) = Inl NotMonophonic \<or>
             (\<exists>mel'. toTensor_forEach this ?sorted ?mel (- 1) = Inr mel')"
    by (rule forEach_in_range [OF inr])
  show ?thesis
    using iff alt by (auto simp: toTensor_result split: sum.splits)
qed

lemmas example_defs =
  example_note_def example_melody_args_def example_melody_def example_piano_def example_tune_def
  example_whole_def
  example_overlap_def example_low_note_def example_low_overlap_def
  MelodyConverter_new_def Note_create_def NOTE_OFF_def FIRST_PITCH_def
  pitches_in_range_def out_of_range_def nonnegative_starts_def

theorem toTensor_NotMonophonic_iff_witness:
  "pitches_in_range example_melody (notes example_tune) \<and>
   nonnegative_starts (notes example_tune) \<and>
   \<not> starts_before_previous_end (sort_key quantizedStartStep (notes example_tune)) \<and>
   fst (MelodyConverter_toTensor example_melody example_tune) \<noteq> Inl NotMonophonic \<and>
   (\<exists>t. fst (MelodyConverter_toTensor example_melody example_tune) = Inr t) \<and>
   pitches_in_range example_melody (notes example_whole) \<and>
   nonnegative_starts (notes example_whole) \<and>
   (\<exists>t. fst (MelodyConverter_toTensor example_melody example_whole) = Inr t) \<and>
   pitches_in_range example_piano (notes example_overlap) \<and>
   nonnegative_starts (notes example_overlap) \<and>
   starts_before_previous_end (sort_key quantizedStartStep (notes example_overlap)) \<and>
   fst (MelodyConverter_toTensor example_piano example_overlap) = Inl NotMonophonic"
proof -
  have a1: "pitches_in_range example_melody (notes example_tune)"
    by (simp add: example_defs)
  have a2: "nonnegative_starts (notes example_tune)"
    by (simp add: example_defs)
  have a3: "\<not> starts_before_previous_end (sort_key quantizedStartStep (notes example_tune))"
    by (simp add: example_defs)
  have w1: "pitches_in_range example_melody (notes example_whole)"
    by (simp add: example_defs)
  have w2: "nonnegative_starts (notes example_whole)"
    by (simp add: example_defs)
  have w3: "\<not> starts_before_previous_end (sort_key quantizedStartStep (notes example_whole))"
    by (simp add: example_defs)
  have b1: "pitches_in_range example_piano (notes example_overlap)"
    by (simp add: example_defs)
  have b2: "nonnegative_starts (notes example_overlap)"
    by (simp add: example_defs)
  have b3: "starts_before_previous_end (sort_key quantizedStartStep (notes example_overlap))"
    by (simp add: example_defs)
  show ?thesis
    using toTensor_NotMonophonic_iff [OF a1 a2] toTensor_NotMonophonic_iff [OF w1 w2]
      toTensor_NotMonophonic_iff [OF b1 b2] a1 a2 a3 w1 w2 w3 b1 b2 b3
    by blast
qed

text \<open>
  Claim C8, as the code has it. A sequence holding a note whose pitch is below
  \<open>minPitch\<close> or above \<open>maxPitch\<close> makes \<^verbatim>\<open>MelodyConverter.toTensor\<close> fail. Each
  note is tested for an overlap before its pitch is tested, so the failure is the
  out-of-range error (carrying the pitch of an out-of-range note) when the start steps
  are not negative and no note, in start order, starts before the end of the note
  preceding it; otherwise it is the not-monophonic or the out-of-range error.
\<close>

theorem toTensor_out_of_range_fails:
  assumes "\<exists>n \<in> set (notes seq). out_of_range this n"
  shows "(fst (MelodyConverter_toTensor this seq) = Inl NotMonophonic \<or>
          (\<exists>n \<in> set (notes seq). out_of_range this n \<and>
             fst (MelodyConverter_toTensor this seq) = Inl (PitchOutOfRange (pitch n)))) \<and>
         (nonnegative_starts (notes seq) \<and>
          \<not> starts_before_previous_end (sort_key quantizedStartStep (notes seq)) \<longrightarrow>
          (\<exists>n \<in> set (notes seq). out_of_range this n \<and>
             fst (MelodyConverter_toTensor this seq) = Inl (PitchOutOfRange (pitch n))))"
proof -
  let ?sorted = "sort_key quantizedStartStep (notes seq)"
  let ?mel = "replicate (numSteps_or (DataConverter.numSteps this) seq) (0::int)"
  have ex: "\<exists>n \<in> set ?sorted. out_of_range this n"
    using assms by simp
  have alt: "toTensor_forEach this ?sorted ?mel (- 1) = Inl NotMonophonic \<or>
         (\<exists>n \<in> set (notes seq). out_of_range this n \<and>
            toTensor_forEach this ?sorted ?mel (- 1) = Inl (PitchOutOfRange (pitch n)))"
    using forEach_out_of_range_fails [OF ex, of ?mel "- 1"] by simp
  then have part1: "fst (MelodyConverter_toTensor this seq) = Inl NotMonophonic \<or>
          (\<exists>n \<in> set (notes seq). out_of_range this n \<and>
             fst (MelodyConverter_toTensor this seq) = Inl (PitchOutOfRange (pitch n)))"
    by (auto simp: toTensor_result)
  have part2: "\<exists>n \<in> set (notes seq). out_of_range this n \<and>
             fst (MelodyConverter_toTensor this seq) = Inl (PitchOutOfRange (pitch n))"
    if nonneg: "nonnegative_starts (notes seq)"
      and mono: "\<not> starts_before_previous_end ?sorted"
  proof -
    have first: "\<not> (?sorted \<noteq> [] \<and> quantizedStartStep (hd ?sorted) < - 1)"
      by (rule first_start_not_before [OF nonneg])
    have "toTensor_forEach this ?sorted ?mel (- 1) \<noteq> Inl NotMonophonic"
      using forEach_NotMonophonic_only_if [of this ?sorted ?mel "- 1"] first mono by blast
    then have "fst (MelodyConverter_toTensor this seq) \<noteq> Inl NotMonophonic"
      by (auto simp: toTensor_result split: sum.splits)
    with part1 show ?thesis by blast
  qed
  show ?thesis using part1 part2 by blast
qed

theorem toTensor_out_of_range_fails_witness:
  "(\<exists>n \<in> set (notes example_low_note). out_of_range example_piano n) \<and>
   nonnegative_starts (notes example_low_note) \<and>
   \<not> starts_before_previous_end (sort_key quantizedStartStep (notes example_low_note)) \<and>
   fst (MelodyConverter_toTensor example_piano example_low_note) = Inl (PitchOutOfRange 20)"
proof -
  have a1: "\<exists>n \<in> set (notes example_low_note). out_of_range example_piano n"
    by (simp add: example_defs)
  have a2: "nonnegative_starts (notes example_low_note)"
    by (simp add: example_defs)
  have a3: "\<not> starts_before_previous_end
               (sort_key quantizedStartStep (notes example_low_note))"
    by (simp add: example_defs)
  have "\<exists>n \<in> set (notes example_low_note). out_of_range example_piano n \<and>
          fst (MelodyConverter_toTensor example_piano example_low_note) =
            Inl (PitchOutOfRange (pitch n))"
    using toTensor_out_of_range_fails [OF a1] a2 a3 by blast
  then have "fst (MelodyConverter_toTensor example_piano example_low_note) =
               Inl (PitchOutOfRange 20)"
    by (simp add: example_low_note_def example_note_def Note_create_def)
  with a1 a2 a3 show ?thesis by blast
qed

text \<open>The claim as written fails: a note of pitch 20 below \<open>minPitch = 21\<close> that also
  starts inside the note before it ends the call with the not-monophonic error.\<close>

theorem toTensor_out_of_range_counterexample:
  "out_of_range example_piano (example_note 20 3 8) \<and>
   example_note 20 3 8 \<in> set (notes example_low_overlap) \<and>
   fst (MelodyConverter_toTensor example_piano example_low_overlap) = Inl NotMonophonic"
  by (simp add: toTensor_result numSteps_or_def buffer_set_def example_defs)

section \<open>Encoding and the caller's sequence\<close>

text \<open>
  Claim C2 at a concrete input. \<^verbatim>\<open>MelodyConverter.toTensor\<close> sorts the note array of
  the sequence it is given: handed two notes in the order (start 2, start 0), it leaves
  the caller's sequence holding them in the order (start 0, start 2).
\<close>

theorem toTensor_sorts_input:
  "notes example_tune = [example_note 62 2 4, example_note 60 0 2] \<and>
   notes (snd (MelodyConverter_toTensor example_melody example_tune)) =
     [example_note 60 0 2, example_note 62 2 4] \<and>
   snd (MelodyConverter_toTensor example_melody example_tune) \<noteq> example_tune"
  by (simp add: MelodyConverter_toTensor_def Let_def example_defs)

text \<open>
  What the encoders do leave alone. The drum encoders and \<^verbatim>\<open>TrioConverter.toTensor\<close>
  return with the caller's sequence as it was. \<^verbatim>\<open>MelodyConverter.toTensor\<close> leaves it
  with the same notes, no field of a note changed, in the stable order of their start
  steps, and with the same step count.
\<close>

theorem toTensor_input_frame:
  "snd (DrumsConverter_toTensor drums seq) = seq \<and>
   snd (DrumsOneHotConverter_toTensor drums seq) = seq \<and>
   snd (TrioConverter_toTensor trio seq) = seq \<and>
   notes (snd (MelodyConverter_toTensor mel seq)) = sort_key quantizedStartStep (notes seq) \<and>
   mset (notes (snd (MelodyConverter_toTensor mel seq))) = mset (notes seq) \<and>
   totalQuantizedSteps (snd (MelodyConverter_toTensor mel seq)) = totalQuantizedSteps seq"
  by (simp add: DrumsConverter_toTensor_def DrumsOneHotConverter_toTensor_def
        TrioConverter_toTensor_def MelodyConverter_toTensor_def Let_def)

section \<open>Drum encoding of a pitch outside the table\<close>

lemma set_class_apply:
  "set_class pcs c m = (\<lambda>q. if q \<in> set (pcs ! c) then Some c else m q)"
proof -
  have "fold (\<lambda>p m'. m'(p \<mapsto> c)) ps m = (\<lambda>q. if q \<in> set ps then Some c else m q)" for ps
    by (induction ps arbitrary: m) (auto simp: fun_eq_iff)
  then show ?thesis by (simp add: set_class_def)
qed

lemma fold_set_class_None:
  "fold (set_class pcs) cs m0 p = None \<longleftrightarrow>
     m0 p = None \<and> (\<forall>c \<in> set cs. p \<notin> set (pcs ! c))"
  by (induction cs arbitrary: m0) (auto simp: set_class_apply)


lemma build_pitchToClass_None:
  "build_pitchToClass pcs p = None \<longleftrightarrow> \<not> in_pitchClasses pcs p"
proof -
  have "(\<forall>c \<in> set [0..<length pcs]. p \<notin> set (pcs ! c)) \<longleftrightarrow> (\<forall>cls \<in> set pcs. p \<notin> set cls)"
    by (auto simp: all_set_conv_all_nth)
  then show ?thesis
    by (simp add: build_pitchToClass_def fold_set_class_None in_pitchClasses_def list_ex_iff)
qed


lemma length_buffer_set [simp]: "length (buffer_set v i vals) = length vals"
  by (simp add: buffer_set_def split: option.splits)

lemma length_drumRoll_init [simp]: "length (drumRoll_init n w vals) = length vals"
proof -
  have "length (fold (\<lambda>i b. buffer_set 1 (Some (int i * int w + (- 1))) b) is vals) = length vals" for "is"
    by (induction "is" arbitrary: vals) auto
  then show ?thesis by (simp add: drumRoll_init_def)
qed

lemma length_drumRoll_notes [simp]:
  "length (fold (drumRoll_note this w) ns vals) = length vals"
  by (induction ns arbitrary: vals) (auto simp: drumRoll_note_def)

lemma buffer_toTensor_shape:
  assumes "length vals = n * w"
  shows "length (buffer_toTensor n w vals) = n \<and>
         list_all (\<lambda>row. length row = w) (buffer_toTensor n w vals)"
proof -
  have "min (n * w - i * w) w = w" if "i < n" for i
  proof -
    from that have "Suc i * w \<le> n * w" by (intro mult_le_mono1) simp
    then show ?thesis by simp
  qed
  then show ?thesis
    using assms by (auto simp: buffer_toTensor_def list_all_iff)
qed

lemma length_labels_add: "length ls \<le> length (labels_add ls i v)"
  by (simp add: labels_add_def)

lemma labels_add_None_stays:
  assumes "k < length ls" and "ls ! k = None"
  shows "labels_add ls i v ! k = None"
  using assms by (auto simp: labels_add_def nth_list_update nth_append)

lemma labels_fold_None_stays:
  assumes "k < length ls" and "ls ! k = None"
  shows "k < length (DrumsOneHotConverter_labels this ns ls) \<and>
         DrumsOneHotConverter_labels this ns ls ! k = None"
  using assms
proof (induction ns arbitrary: ls)
  case Nil
  then show ?case by (simp add: DrumsOneHotConverter_labels_def)
next
  case (Cons n ns)
  let ?v = "case pitchToClass this (pitch n) of None \<Rightarrow> None | Some c \<Rightarrow> Some (2 ^ c)"
  let ?ls = "labels_add ls (quantizedStartStep n) ?v"
  have "k < length ?ls" using Cons.prems(1) length_labels_add [of ls] by (meson less_le_trans)
  moreover have "?ls ! k = None" by (rule labels_add_None_stays [OF Cons.prems])
  ultimately show ?case
    using Cons.IH [of ?ls] by (simp add: DrumsOneHotConverter_labels_def)
qed

lemma labels_fold_length:
  "length ls \<le> length (DrumsOneHotConverter_labels this ns ls)"
proof (induction ns arbitrary: ls)
  case Nil
  then show ?case by (simp add: DrumsOneHotConverter_labels_def)
next
  case (Cons n ns)
  show ?case
    using Cons.IH [of "labels_add ls (quantizedStartStep n)
        (case pitchToClass this (pitch n) of None \<Rightarrow> None | Some c \<Rightarrow> Some (2 ^ c))"]
      length_labels_add [of ls "quantizedStartStep n"]
    by (simp add: DrumsOneHotConverter_labels_def) (meson le_trans)
qed

lemma labels_fold_append:
  "DrumsOneHotConverter_labels this (xs @ ys) ls =
     DrumsOneHotConverter_labels this ys (DrumsOneHotConverter_labels this xs ls)"
  by (simp add: DrumsOneHotConverter_labels_def)

lemma labels_unmapped:
  assumes "n \<in> set ns" and "pitchToClass this (pitch n) = None"
    and "0 \<le> quantizedStartStep n" and "nat (quantizedStartStep n) < length ls"
  shows "nat (quantizedStartStep n) < length (DrumsOneHotConverter_labels this ns ls) \<and>
         DrumsOneHotConverter_labels this ns ls ! nat (quantizedStartStep n) = None"
proof -
  from assms(1) obtain xs ys where ns: "ns = xs @ n # ys" by (auto dest: split_list)
  let ?k = "nat (quantizedStartStep n)"
  let ?l1 = "DrumsOneHotConverter_labels this xs ls"
  have len1: "?k < length ?l1" using assms(4) labels_fold_length [of ls this xs] by simp
  let ?l2 = "labels_add ?l1 (quantizedStartStep n) None"
  have len2: "?k < length ?l2" using len1 length_labels_add [of ?l1] by (meson less_le_trans)
  have "?l2 ! ?k = None" using len1 assms(3) by (simp add: labels_add_def split: option.splits)
  from labels_fold_None_stays [OF len2 this, of this ys]
  show ?thesis
    using assms(2) by (simp add: ns labels_fold_append DrumsOneHotConverter_labels_def)
qed

lemma oneHot_shape:
  "length (oneHot ls d) = length ls \<and> list_all (\<lambda>row. length row = nat d) (oneHot ls d)"
  by (simp add: oneHot_def list_all_iff)

lemma oneHot_nth: "k < length ls \<Longrightarrow> oneHot ls d ! k = map (\<lambda>j. if int j = ls ! k then 1 else 0) [0..<nat d]"
  by (simp add: oneHot_def)

lemma oneHot_row_zero:
  "map (\<lambda>j. if j = (0::nat) then 1 else (0::int)) [0..<2 ^ k] = 1 # replicate (2 ^ k - 1) 0"
proof -
  have "[0..<2 ^ k] = 0 # [Suc 0..<2 ^ k]"
    by (simp add: upt_conv_Cons)
  moreover have "map (\<lambda>j. if j = (0::nat) then 1 else (0::int)) [Suc 0..<2 ^ k] = replicate (2 ^ k - 1) 0"
    by (rule nth_equalityI) auto
  ultimately show ?thesis by simp
qed

lemma DrumsConverter_new_fields [simp]:
  "DataConverter.numSteps (DrumsConverter_new args) = BaseConverterArgs.numSteps args"
  "pitchToClass (DrumsConverter_new args) = build_pitchToClass (pitchClasses (DrumsConverter_new args))"
  "DataConverter.numSteps (DrumsOneHotConverter_new args) = BaseConverterArgs.numSteps args"
  "pitchClasses (DrumsOneHotConverter_new args) = pitchClasses (DrumsConverter_new args)"
  "pitchToClass (DrumsOneHotConverter_new args) = build_pitchToClass (pitchClasses (DrumsConverter_new args))"
  "depth (DrumsOneHotConverter_new args) = 2 ^ length (pitchClasses (DrumsConverter_new args))"
  by (simp_all add: DrumsConverter_new_def DrumsOneHotConverter_new_def Let_def)

text \<open>
  Claim C3, as the code has it. Neither drum encoder tests a pitch against the table,
  and neither raises an error: for a sequence holding a note whose pitch is in none of
  the configured classes, \<^verbatim>\<open>DrumsConverter.toTensor\<close> returns a buffer of
  \<open>numSteps\<close> rows and one column per class plus one, and
  \<^verbatim>\<open>DrumsOneHotConverter.toTensor\<close> returns a buffer of at least \<open>numSteps\<close> rows and
  \<open>2 ^ classes\<close> columns in which the row of that note's step, when the step is in
  \<open>[0, numSteps)\<close>, is the one-hot row of label 0.
\<close>

theorem drums_toTensor_unmapped_pitch:
  assumes "n \<in> set (notes seq)"
    and "\<not> in_pitchClasses (pitchClasses (DrumsConverter_new args)) (pitch n)"
  shows "(\<exists>t. fst (DrumsConverter_toTensor (DrumsConverter_new args) seq) = Inr t \<and>
            length t = DrumsConverter_steps args seq \<and>
            list_all (\<lambda>row. length row = length (pitchClasses (DrumsConverter_new args)) + 1) t) \<and>
         (\<exists>t. fst (DrumsOneHotConverter_toTensor (DrumsOneHotConverter_new args) seq) = Inr t \<and>
            DrumsConverter_steps args seq \<le> length t \<and>
            list_all (\<lambda>row. length row = 2 ^ length (pitchClasses (DrumsConverter_new args))) t \<and>
            (0 \<le> quantizedStartStep n \<and>
             quantizedStartStep n < int (DrumsConverter_steps args seq) \<longrightarrow>
               t ! nat (quantizedStartStep n) =
                 1 # replicate (2 ^ length (pitchClasses (DrumsConverter_new args)) - 1) 0))"
proof -
  let ?pcs = "pitchClasses (DrumsConverter_new args)"
  let ?N = "DrumsConverter_steps args seq"
  let ?roll = "DrumsConverter_new args"
  let ?hot = "DrumsOneHotConverter_new args"
  let ?w = "length ?pcs + 1"
  let ?vals = "fold (drumRoll_note ?roll ?w) (notes seq)
                 (drumRoll_init ?N ?w (replicate (?N * ?w) 0))"
  have roll: "fst (DrumsConverter_toTensor ?roll seq) = Inr (buffer_toTensor ?N ?w ?vals)"
    by (simp add: DrumsConverter_toTensor_def Let_def DrumsConverter_steps_def)
  have "length ?vals = ?N * ?w" by simp
  from buffer_toTensor_shape [OF this] roll
  have part1: "\<exists>t. fst (DrumsConverter_toTensor ?roll seq) = Inr t \<and> length t = ?N \<and>
            list_all (\<lambda>row. length row = ?w) t"
    by blast
  let ?ls = "DrumsOneHotConverter_labels ?hot (notes seq) (replicate ?N (Some 0))"
  let ?t = "oneHot (tensor1d_int32 ?ls) (2 ^ length ?pcs)"
  have hot: "fst (DrumsOneHotConverter_toTensor ?hot seq) = Inr ?t"
    by (simp add: DrumsOneHotConverter_toTensor_def Let_def DrumsConverter_steps_def)
  have len: "?N \<le> length ?t"
    using labels_fold_length [of "replicate ?N (Some 0)" ?hot "notes seq"]
    by (simp add: oneHot_def tensor1d_int32_def)
  have width: "list_all (\<lambda>row. length row = 2 ^ length ?pcs) ?t"
    using oneHot_shape [of "tensor1d_int32 ?ls" "2 ^ length ?pcs"] by (simp add: nat_power_eq)
  have row: "?t ! nat (quantizedStartStep n) = 1 # replicate (2 ^ length ?pcs - 1) 0"
    if range: "0 \<le> quantizedStartStep n" "quantizedStartStep n < int ?N"
  proof -
    have unmapped: "pitchToClass ?hot (pitch n) = None"
      using assms(2) by (simp add: build_pitchToClass_None)
    have "nat (quantizedStartStep n) < length (replicate ?N (Some (0::int)))"
      using range by simp
    from labels_unmapped [OF assms(1) unmapped range(1) this]
    have k: "nat (quantizedStartStep n) < length ?ls" and none: "?ls ! nat (quantizedStartStep n) = None"
      by blast+
    have "tensor1d_int32 ?ls ! nat (quantizedStartStep n) = 0"
      using k none by (simp add: tensor1d_int32_def)
    moreover have "nat (quantizedStartStep n) < length (tensor1d_int32 ?ls)"
      using k by (simp add: tensor1d_int32_def)
    ultimately have "?t ! nat (quantizedStartStep n) =
        map (\<lambda>j. if int j = 0 then 1 else 0) [0..<nat (2 ^ length ?pcs)]"
      by (simp add: oneHot_nth)
    also have "nat (2 ^ length ?pcs) = 2 ^ length ?pcs"
      by (simp add: nat_power_eq)
    finally show ?thesis by (simp add: oneHot_row_zero)
  qed
  from hot len width row part1 show ?thesis by blast
qed

lemmas drums_example_defs =
  example_drums_args_def example_unmapped_def example_note_def Note_create_def
  DrumsConverter_new_def DrumsOneHotConverter_new_def in_pitchClasses_def
  DrumsConverter_steps_def numSteps_or_def Let_def

text \<open>The claim as written fails: with the table \<open>[[36], [38]]\<close>, a note of pitch 99
  makes neither encoder fail; both return a buffer.\<close>

theorem drums_toTensor_unmapped_pitch_counterexample:
  "\<not> in_pitchClasses (pitchClasses (DrumsConverter_new example_drums_args)) 99 \<and>
   pitch (hd (notes example_unmapped)) = 99 \<and>
   \<not> isl (fst (DrumsConverter_toTensor (DrumsConverter_new example_drums_args) example_unmapped)) \<and>
   fst (DrumsOneHotConverter_toTensor (DrumsOneHotConverter_new example_drums_args)
          example_unmapped) = Inr [[1, 0, 0, 0], [1, 0, 0, 0]]"
  by code_simp

theorem drums_toTensor_unmapped_pitch_witness:
  "hd (notes example_unmapped) \<in> set (notes example_unmapped) \<and>
   \<not> in_pitchClasses (pitchClasses (DrumsConverter_new example_drums_args))
       (pitch (hd (notes example_unmapped))) \<and>
   (\<exists>t. fst (DrumsOneHotConverter_toTensor (DrumsOneHotConverter_new example_drums_args)
              example_unmapped) = Inr t \<and>
        t ! 0 = [1, 0, 0, 0])"
proof -
  have a1: "hd (notes example_unmapped) \<in> set (notes example_unmapped)"
    by (simp add: drums_example_defs)
  have a2: "\<not> in_pitchClasses (pitchClasses (DrumsConverter_new example_drums_args))
       (pitch (hd (notes example_unmapped)))"
    by (simp add: drums_example_defs)
  have a3: "quantizedStartStep (hd (notes example_unmapped)) = 0"
    "DrumsConverter_steps example_drums_args example_unmapped = 2"
    "length (pitchClasses (DrumsConverter_new example_drums_args)) = 2"
    by (simp_all add: drums_example_defs)
  show ?thesis
    using drums_toTensor_unmapped_pitch [OF a1 a2] a1 a2 a3
    by (auto simp: numeral_eq_Suc)
qed

section \<open>TrioConverter\<close>

text \<open>
  Claim C10. The constructor overwrites \<open>numSteps\<close> in the three argument records of
  the object it is given with the object's own \<open>numSteps\<close>, and the sub-converters are
  built with that value; the caller's object is left changed unless the three records
  already agreed with it.
\<close>

theorem TrioConverter_new_overwrites_numSteps:
  "snd (TrioConverter_new args) =
     args\<lparr>melArgs := (melArgs args)\<lparr>BaseConverterArgs.numSteps := BaseConverterArgs.numSteps args\<rparr>,
          bassArgs := (bassArgs args)\<lparr>BaseConverterArgs.numSteps := BaseConverterArgs.numSteps args\<rparr>,
          drumsArgs := (drumsArgs args)\<lparr>BaseConverterArgs.numSteps := BaseConverterArgs.numSteps args\<rparr>\<rparr> \<and>
   DataConverter.numSteps (melConverter (fst (TrioConverter_new args))) = BaseConverterArgs.numSteps args \<and>
   DataConverter.numSteps (bassConverter (fst (TrioConverter_new args))) = BaseConverterArgs.numSteps args \<and>
   DataConverter.numSteps (drumsConverter (fst (TrioConverter_new args))) = BaseConverterArgs.numSteps args \<and>
   (snd (TrioConverter_new args) = args \<longleftrightarrow>
      BaseConverterArgs.numSteps (melArgs args) = BaseConverterArgs.numSteps args \<and>
      BaseConverterArgs.numSteps (bassArgs args) = BaseConverterArgs.numSteps args \<and>
      BaseConverterArgs.numSteps (drumsArgs args) = BaseConverterArgs.numSteps args)"
proof -
  obtain m b d where parts: "melArgs args = m" "bassArgs args = b" "drumsArgs args = d" by simp
  have m: "m\<lparr>BaseConverterArgs.numSteps := x\<rparr> = m \<longleftrightarrow> BaseConverterArgs.numSteps m = x" for x
    by (cases m) auto
  have b: "b\<lparr>BaseConverterArgs.numSteps := x\<rparr> = b \<longleftrightarrow> BaseConverterArgs.numSteps b = x" for x
    by (cases b) auto
  have d: "d\<lparr>BaseConverterArgs.numSteps := x\<rparr> = d \<longleftrightarrow> BaseConverterArgs.numSteps d = x" for x
    by (cases d) auto
  show ?thesis
    using parts m b d
    by (cases args)
       (auto simp: TrioConverter_new_def Let_def MelodyConverter_new_def
          DrumsOneHotConverter_new_def DrumsConverter_new_def)
qed

theorem TrioConverter_new_overwrites_numSteps_witness:
  "snd (TrioConverter_new example_trio_args) \<noteq> example_trio_args \<and>
   BaseConverterArgs.numSteps (melArgs example_trio_args) = Some 7 \<and>
   BaseConverterArgs.numSteps (melArgs (snd (TrioConverter_new example_trio_args))) = Some 2 \<and>
   DataConverter.numSteps (melConverter (fst (TrioConverter_new example_trio_args))) = Some 2"
  using TrioConverter_new_overwrites_numSteps [of example_trio_args]
  by (simp add: example_trio_args_def)

lemma tf_split3:
  assumes "list_all (\<lambda>row. length row = a + b + c) t"
  shows "tf_split t [a, b, c] =
           Inr [map (take a) t, map (\<lambda>row. take b (drop a row)) t,
                map (\<lambda>row. take c (drop (a + b) row)) t]"
proof -
  have "[0..<length [a, b, c]] = [0, 1, 2]"
    by (simp add: upt_conv_Cons)
  then show ?thesis
    using assms by (simp add: tf_split_def add.assoc)
qed

lemma drums_notes_isDrum:
  "list_all isDrum (notes (DrumsConverter_toNoteSequence this oh))"
  by (auto simp: DrumsConverter_toNoteSequence_def NoteSequence_create_def Let_def list_all_iff)

lemma TrioConverter_new_depth:
  "depth (fst (TrioConverter_new args)) =
     depth (melConverter (fst (TrioConverter_new args))) +
     depth (bassConverter (fst (TrioConverter_new args))) +
     depth (drumsConverter (fst (TrioConverter_new args)))"
  "0 \<le> depth (drumsConverter (fst (TrioConverter_new args)))"
  by (simp_all add: TrioConverter_new_def Let_def DrumsOneHotConverter_new_def)

text \<open>
  Claim C6. For a buffer whose rows have the converter's depth (the sub-converters'
  depths not being negative), \<^verbatim>\<open>TrioConverter.toNoteSequence\<close> cuts every row into
  the melody, bass and drums parts, of the sub-converters' depths and in this order,
  decodes each part with its sub-converter, and returns the melody notes with
  instrument 0 and program 0, then the bass notes with instrument 1 and program 32,
  then the drum notes with instrument 2 (still drum notes), in this order.
\<close>

theorem TrioConverter_toNoteSequence_parts:
  fixes th :: "'b::linorder list list"
  assumes "this = fst (TrioConverter_new args)"
    and "0 \<le> depth (melConverter this)" and "0 \<le> depth (bassConverter this)"
    and "list_all (\<lambda>row. int (length row) = depth this) th"
  shows "let dm = nat (depth (melConverter this));
             db = nat (depth (bassConverter this));
             dd = nat (depth (drumsConverter this));
             melNotes = notes (MelodyConverter_toNoteSequence (melConverter this)
                          (map (take dm) th));
             bassNotes = notes (MelodyConverter_toNoteSequence (bassConverter this)
                          (map (\<lambda>row. take db (drop dm row)) th));
             drumNotes = notes (DrumsConverter_toNoteSequence (drumsConverter this)
                          (map (\<lambda>row. drop (dm + db) row) th))
         in tf_split th [dm, db, dd] =
              Inr [map (take dm) th, map (\<lambda>row. take db (drop dm row)) th,
                   map (\<lambda>row. drop (dm + db) row) th] \<and>
            list_all (\<lambda>row. length row = dd) (map (\<lambda>row. drop (dm + db) row) th) \<and>
            (\<exists>ns. TrioConverter_toNoteSequence this th = Inr ns \<and>
               notes ns =
                 map (\<lambda>n. n\<lparr>instrument := 0, program := 0\<rparr>) melNotes @
                 map (\<lambda>n. n\<lparr>instrument := 1, program := 32\<rparr>) bassNotes @
                 map (\<lambda>n. n\<lparr>instrument := 2\<rparr>) drumNotes) \<and>
            list_all (\<lambda>n. instrument n = 0 \<and> program n = 0)
              (map (\<lambda>n. n\<lparr>instrument := 0, program := 0\<rparr>) melNotes) \<and>
            list_all (\<lambda>n. instrument n = 1 \<and> program n = 32)
              (map (\<lambda>n. n\<lparr>instrument := 1, program := 32\<rparr>) bassNotes) \<and>
            list_all (\<lambda>n. isDrum n \<and> instrument n = 2)
              (map (\<lambda>n. n\<lparr>instrument := 2\<rparr>) drumNotes)"
proof -
  let ?dm = "nat (depth (melConverter this))"
  let ?db = "nat (depth (bassConverter this))"
  let ?dd = "nat (depth (drumsConverter this))"
  have sum: "depth this = depth (melConverter this) + depth (bassConverter this)
               + depth (drumsConverter this)"
    and dd: "0 \<le> depth (drumsConverter this)"
    unfolding assms(1) by (rule TrioConverter_new_depth)+
  have w: "list_all (\<lambda>row. length row = ?dm + ?db + ?dd) th"
    using assms(2-4) sum dd by (auto simp: list_all_iff)
  have drop_eq: "map (\<lambda>row. take ?dd (drop (?dm + ?db) row)) th =
                 map (\<lambda>row. drop (?dm + ?db) row) th"
    using w by (auto simp: list_all_iff)
  have split: "tf_split th [?dm, ?db, ?dd] =
           Inr [map (take ?dm) th, map (\<lambda>row. take ?db (drop ?dm row)) th,
                map (\<lambda>row. drop (?dm + ?db) row) th]"
    using tf_split3 [OF w] drop_eq by simp
  have widths: "list_all (\<lambda>row. length row = ?dd) (map (\<lambda>row. drop (?dm + ?db) row) th)"
    using w by (auto simp: list_all_iff)
  have drums: "list_all (\<lambda>n. isDrum n \<and> instrument n = 2)
     (map (\<lambda>n. n\<lparr>instrument := 2\<rparr>)
        (notes (DrumsConverter_toNoteSequence (drumsConverter this)
                  (map (\<lambda>row. drop (?dm + ?db) row) th))))"
    using drums_notes_isDrum [of "drumsConverter this" "map (\<lambda>row. drop (?dm + ?db) row) th"]
    by (simp add: list_all_iff)
  show ?thesis
    using split widths drums
    by (simp add: TrioConverter_toNoteSequence_def Let_def BASS_PROG_RANGE_def list_all_iff)
qed

theorem TrioConverter_toNoteSequence_parts_witness:
  "example_trio = fst (TrioConverter_new example_trio_args) \<and>
   0 \<le> depth (melConverter example_trio) \<and>
   0 \<le> depth (bassConverter example_trio) \<and>
   list_all (\<lambda>row. int (length row) = depth example_trio) example_trio_tensor \<and>
   (\<exists>ns. TrioConverter_toNoteSequence example_trio example_trio_tensor = Inr ns \<and>
      notes ns = example_trio_notes)"
proof -
  have a1: "example_trio = fst (TrioConverter_new example_trio_args)"
    by (simp add: example_trio_def)
  have a2: "0 \<le> depth (melConverter example_trio)"
    by code_simp
  have a3: "0 \<le> depth (bassConverter example_trio)"
    by code_simp
  have a4: "list_all (\<lambda>row. int (length row) = depth example_trio) example_trio_tensor"
    by code_simp
  have d: "nat (depth (melConverter example_trio)) = 4"
    "nat (depth (bassConverter example_trio)) = 4"
    by code_simp+
  have m: "map (\<lambda>n. n\<lparr>instrument := 0, program := 0\<rparr>)
             (notes (MelodyConverter_toNoteSequence (melConverter example_trio)
                (map (take 4) example_trio_tensor))) @
           map (\<lambda>n. n\<lparr>instrument := 1, program := 32\<rparr>)
             (notes (MelodyConverter_toNoteSequence (bassConverter example_trio)
                (map (\<lambda>row. take 4 (drop 4 row)) example_trio_tensor))) @
           map (\<lambda>n. n\<lparr>instrument := 2\<rparr>)
             (notes (DrumsConverter_toNoteSequence (drumsConverter example_trio)
                (map (\<lambda>row. drop (4 + 4) row) example_trio_tensor))) = example_trio_notes"
    by code_simp
  show ?thesis
    using TrioConverter_toNoteSequence_parts [OF a1 a2 a3 a4] a1 a2 a3 a4 m
    by (auto simp: Let_def d)
qed

text \<open>
  Claim C7. \<^verbatim>\<open>TrioConverter.toTensor\<close> encodes, with the melody, bass and drums
  sub-converters, the input restricted to the notes that are not drums and have a
  program in \<open>[0, 31]\<close>, to those that are not drums and have a program in
  \<open>[32, 39]\<close>, and to the drum notes; the first of the three encodings to fail ends the
  call, and otherwise the result is their concatenation along the feature axis in this
  order, which for buffers of the same number of rows appends them row by row. A note
  that is not a drum and has a program outside \<open>[0, 39]\<close> changes neither the buffer nor
  the failure.
\<close>

theorem TrioConverter_toTensor_concat:
  "(let melSeq = seq\<lparr>notes := filter (\<lambda>n. \<not> isDrum n \<and> 0 \<le> program n \<and> program n \<le> 31) (notes seq)\<rparr>;
        bassSeq = seq\<lparr>notes := filter (\<lambda>n. \<not> isDrum n \<and> 32 \<le> program n \<and> program n \<le> 39) (notes seq)\<rparr>;
        drumsSeq = seq\<lparr>notes := filter isDrum (notes seq)\<rparr>
    in fst (TrioConverter_toTensor this seq) =
         (case fst (MelodyConverter_toTensor (melConverter this) melSeq) of
            Inl e \<Rightarrow> Inl e
          | Inr mel \<Rightarrow>
              (case fst (MelodyConverter_toTensor (bassConverter this) bassSeq) of
                 Inl e \<Rightarrow> Inl e
               | Inr bass \<Rightarrow>
                   (case fst (DrumsOneHotConverter_toTensor (drumsConverter this) drumsSeq) of
                      Inl e \<Rightarrow> Inl e
                    | Inr drums \<Rightarrow> tf_concat [mel, bass, drums])))) \<and>
   (length bass = length mel \<and> length drums = length mel \<longrightarrow>
      tf_concat [mel, bass, drums] =
        Inr (map (\<lambda>i. mel ! i @ bass ! i @ drums ! i) [0..<length mel])) \<and>
   (\<not> isDrum n \<and> (program n < 0 \<or> 39 < program n) \<longrightarrow>
      fst (TrioConverter_toTensor this (seq\<lparr>notes := xs @ n # ys\<rparr>)) =
      fst (TrioConverter_toTensor this (seq\<lparr>notes := xs @ ys\<rparr>)))"
proof -
  have mel: "isMelNote = (\<lambda>n. \<not> isDrum n \<and> 0 \<le> program n \<and> program n \<le> 31)"
    by (simp add: fun_eq_iff isMelNote_def MEL_PROG_RANGE_def)
  have bass: "isBassNote = (\<lambda>n. \<not> isDrum n \<and> 32 \<le> program n \<and> program n \<le> 39)"
    by (simp add: fun_eq_iff isBassNote_def BASS_PROG_RANGE_def)
  have part1: "fst (TrioConverter_toTensor this seq) =
         (case fst (MelodyConverter_toTensor (melConverter this)
                      (seq\<lparr>notes := filter isMelNote (notes seq)\<rparr>)) of
            Inl e \<Rightarrow> Inl e
          | Inr mel \<Rightarrow>
              (case fst (MelodyConverter_toTensor (bassConverter this)
                           (seq\<lparr>notes := filter isBassNote (notes seq)\<rparr>)) of
                 Inl e \<Rightarrow> Inl e
               | Inr bass \<Rightarrow>
                   (case fst (DrumsOneHotConverter_toTensor (drumsConverter this)
                                (seq\<lparr>notes := filter isDrum (notes seq)\<rparr>)) of
                      Inl e \<Rightarrow> Inl e
                    | Inr drums \<Rightarrow> tf_concat [mel, bass, drums])))" for seq
    by (simp add: TrioConverter_toTensor_def Let_def clone_def)
  have part2: "tf_concat [mel, bass, drums] =
        Inr (map (\<lambda>i. mel ! i @ bass ! i @ drums ! i) [0..<length mel])"
    if "length bass = length mel \<and> length drums = length mel"
    using that by (simp add: tf_concat_def)
  have part3: "fst (TrioConverter_toTensor this (seq\<lparr>notes := xs @ n # ys\<rparr>)) =
      fst (TrioConverter_toTensor this (seq\<lparr>notes := xs @ ys\<rparr>))"
    if "\<not> isDrum n \<and> (program n < 0 \<or> 39 < program n)"
  proof -
    from that have "\<not> isMelNote n" "\<not> isBassNote n" "\<not> isDrum n"
      by (auto simp: mel bass)
    then show ?thesis
      by (simp add: part1 cong: sum.case_cong)
  qed
  show ?thesis
    using part1 [of seq] part2 part3 unfolding mel bass Let_def by blast
qed

theorem TrioConverter_toTensor_concat_witness:
  "\<not> isDrum example_stray \<and> 39 < program example_stray \<and>
   notes example_band = example_parts @ [example_stray] \<and>
   fst (TrioConverter_toTensor example_trio (example_band\<lparr>notes := example_parts\<rparr>)) =
     Inr example_trio_tensor \<and>
   fst (TrioConverter_toTensor example_trio example_band) = Inr example_trio_tensor"
proof -
  have a1: "\<not> isDrum example_stray \<and> (program example_stray < 0 \<or> 39 < program example_stray)"
    by code_simp
  have a2: "39 < program example_stray"
    by code_simp
  have a3: "example_band\<lparr>notes := example_parts @ example_stray # []\<rparr> = example_band"
    by (simp add: example_band_def)
  have a4: "fst (TrioConverter_toTensor example_trio (example_band\<lparr>notes := example_parts\<rparr>)) =
     Inr example_trio_tensor"
    by code_simp
  have "fst (TrioConverter_toTensor example_trio
               (example_band\<lparr>notes := example_parts @ example_stray # []\<rparr>)) =
        fst (TrioConverter_toTensor example_trio
               (example_band\<lparr>notes := example_parts @ []\<rparr>))"
    using TrioConverter_toTensor_concat
            [of example_band example_trio "[]" "[]" "[]" example_stray example_parts "[]"]
      a1
    by blast
  then have "fst (TrioConverter_toTensor example_trio example_band) = Inr example_trio_tensor"
    using a3 a4 by simp
  then show ?thesis
    using a1 a2 a4 by (simp add: example_band_def)
qed

section \<open>MelodyConverter.toNoteSequence: what every decoding satisfies\<close>

lemma argMax_scan_less:
  "mi < i \<Longrightarrow> argMax_scan m mi i xs < i + length xs"
proof (induction xs arbitrary: m mi i)
  case Nil
  then show ?case by simp
next
  case (Cons x xs)
  from Cons.prems have "mi < Suc i" by simp
  with Cons.IH [of i "Suc i" x] Cons.IH [of mi "Suc i" m] show ?case by simp
qed

lemma argMax_row_less: "row \<noteq> [] \<Longrightarrow> argMax_row row < length row"
  using argMax_scan_less [of 0 1] by (cases row) auto

lemma not_sbpe_snoc:
  assumes "\<not> starts_before_previous_end ns"
    and "list_all (\<lambda>n. quantizedEndStep n \<le> quantizedStartStep x) ns"
  shows "\<not> starts_before_previous_end (ns @ [x])"
  using assms by (induction ns rule: starts_before_previous_end.induct) auto

lemma well_formed_note_mono:
  "well_formed_note this b n \<Longrightarrow> b \<le> b' \<Longrightarrow> well_formed_note this b' n"
  by (simp add: well_formed_note_def)

lemma scan_invariant_close:
  assumes "scan_invariant this s (Some c) ns"
  shows "list_all (well_formed_note this (int s)) (ns @ [c\<lparr>quantizedEndStep := int s\<rparr>]) \<and>
         \<not> starts_before_previous_end (ns @ [c\<lparr>quantizedEndStep := int s\<rparr>])"
proof -
  from assms have wf: "list_all (well_formed_note this (quantizedStartStep c)) ns"
    and chain: "\<not> starts_before_previous_end ns"
    and c: "0 \<le> quantizedStartStep c" "quantizedStartStep c < int s" "\<not> out_of_range this c"
    by (simp_all add: scan_invariant_def)
  have "list_all (\<lambda>n. quantizedEndStep n \<le> quantizedStartStep (c\<lparr>quantizedEndStep := int s\<rparr>)) ns"
    using wf by (simp add: list_all_iff well_formed_note_def)
  from not_sbpe_snoc [OF chain this]
  have "\<not> starts_before_previous_end (ns @ [c\<lparr>quantizedEndStep := int s\<rparr>])" .
  moreover have "list_all (well_formed_note this (int s)) ns"
    using wf c(2) by (auto simp: list_all_iff intro: well_formed_note_mono)
  moreover have "well_formed_note this (int s) (c\<lparr>quantizedEndStep := int s\<rparr>)"
    using c by (simp add: well_formed_note_def out_of_range_def)
  ultimately show ?thesis by simp
qed

lemma scan_invariant_step:
  assumes inv: "scan_invariant this s currNote ns"
    and label: "0 \<le> l" "l < 2 \<or> l \<le> maxPitch this - minPitch this + 2"
  shows "l = 0 \<longrightarrow> scan_invariant this (Suc s) currNote ns"
    and "l = 1 \<longrightarrow> scan_invariant this (Suc s) None
           (case currNote of Some c \<Rightarrow> ns @ [c\<lparr>quantizedEndStep := int s\<rparr>] | None \<Rightarrow> ns)"
    and "l \<noteq> 0 \<and> l \<noteq> 1 \<longrightarrow> scan_invariant this (Suc s)
           (Some (Note_create\<lparr>pitch := l - FIRST_PITCH + minPitch this,
                              quantizedStartStep := int s\<rparr>))
           (case currNote of Some c \<Rightarrow> ns @ [c\<lparr>quantizedEndStep := int s\<rparr>] | None \<Rightarrow> ns)"
proof -
  show "l = 0 \<longrightarrow> scan_invariant this (Suc s) currNote ns"
    using inv
    by (cases currNote)
       (auto simp: scan_invariant_def list_all_iff intro: well_formed_note_mono)
  have closed: "list_all (well_formed_note this (int s))
                  (case currNote of Some c \<Rightarrow> ns @ [c\<lparr>quantizedEndStep := int s\<rparr>] | None \<Rightarrow> ns) \<and>
                \<not> starts_before_previous_end
                  (case currNote of Some c \<Rightarrow> ns @ [c\<lparr>quantizedEndStep := int s\<rparr>] | None \<Rightarrow> ns)"
  proof (cases currNote)
    case None
    with inv show ?thesis by (simp add: scan_invariant_def)
  next
    case (Some c)
    with inv scan_invariant_close [of this s c ns] show ?thesis by simp
  qed
  then have wider: "list_all (well_formed_note this (int (Suc s)))
                  (case currNote of Some c \<Rightarrow> ns @ [c\<lparr>quantizedEndStep := int s\<rparr>] | None \<Rightarrow> ns)"
    by (auto simp: list_all_iff intro: well_formed_note_mono)
  show "l = 1 \<longrightarrow> scan_invariant this (Suc s) None
           (case currNote of Some c \<Rightarrow> ns @ [c\<lparr>quantizedEndStep := int s\<rparr>] | None \<Rightarrow> ns)"
    using closed wider by (simp add: scan_invariant_def)
  show "l \<noteq> 0 \<and> l \<noteq> 1 \<longrightarrow> scan_invariant this (Suc s)
           (Some (Note_create\<lparr>pitch := l - FIRST_PITCH + minPitch this,
                              quantizedStartStep := int s\<rparr>))
           (case currNote of Some c \<Rightarrow> ns @ [c\<lparr>quantizedEndStep := int s\<rparr>] | None \<Rightarrow> ns)"
    using closed label
    by (auto simp: scan_invariant_def out_of_range_def FIRST_PITCH_def)
qed

lemma toNoteSequence_loop_invariant:
  assumes "scan_invariant this s currNote ns"
    and "s \<le> length labels"
    and "list_all (\<lambda>l. 0 \<le> l \<and> (l < 2 \<or> l \<le> maxPitch this - minPitch this + 2)) labels"
  shows "case toNoteSequence_loop this labels s currNote ns of
           (currNote', ns') \<Rightarrow> scan_invariant this (length labels) currNote' ns'"
  using assms
proof (induction "length labels - s" arbitrary: s currNote ns)
  case 0
  then have "s = length labels" by simp
  with "0.prems"(1) show ?case
    by (subst toNoteSequence_loop.simps) simp
next
  case (Suc k)
  then have s: "s < length labels" and k: "k = length labels - Suc s" by simp_all
  let ?l = "labels ! s"
  have l: "0 \<le> ?l" "?l < 2 \<or> ?l \<le> maxPitch this - minPitch this + 2"
    using Suc.prems(3) s by (auto simp: list_all_iff)
  note step = scan_invariant_step [OF Suc.prems(1) l]
  have le: "Suc s \<le> length labels" using s by simp
  show ?case
  proof (cases "?l = 0")
    case True
    with step(1) have "scan_invariant this (Suc s) currNote ns" by simp
    from Suc.hyps(1) [OF k this le Suc.prems(3)] True s show ?thesis
      by (subst toNoteSequence_loop.simps) simp
  next
    case False
    note nonzero = this
    show ?thesis
    proof (cases "?l = 1")
      case True
      with step(2) have "scan_invariant this (Suc s) None
           (case currNote of Some c \<Rightarrow> ns @ [c\<lparr>quantizedEndStep := int s\<rparr>] | None \<Rightarrow> ns)"
        by simp
      from Suc.hyps(1) [OF k this le Suc.prems(3)] True s show ?thesis
        by (subst toNoteSequence_loop.simps) (simp split: option.splits)
    next
      case False
      with nonzero step(3) have "scan_invariant this (Suc s)
           (Some (Note_create\<lparr>pitch := ?l - FIRST_PITCH + minPitch this,
                              quantizedStartStep := int s\<rparr>))
           (case currNote of Some c \<Rightarrow> ns @ [c\<lparr>quantizedEndStep := int s\<rparr>] | None \<Rightarrow> ns)"
        by simp
      from Suc.hyps(1) [OF k this le Suc.prems(3)] False nonzero s show ?thesis
        by (subst toNoteSequence_loop.simps) (simp add: Let_def)
    qed
  qed
qed

lemma argMax_labels:
  assumes "list_all (\<lambda>row. int (length row) = d) oh"
  shows "list_all (\<lambda>l. 0 \<le> l \<and> (l < 2 \<or> l \<le> d - 1)) (argMax oh)"
proof -
  have "0 \<le> int (argMax_row row) \<and> (int (argMax_row row) < 2 \<or> int (argMax_row row) \<le> d - 1)"
    if "int (length row) = d" for row :: "'a list"
  proof (cases "row = []")
    case True
    then show ?thesis by simp
  next
    case False
    from argMax_row_less [OF this] that show ?thesis by simp
  qed
  with assms show ?thesis by (auto simp: argMax_def list_all_iff)
qed

lemma MelodyConverter_new_fields [simp]:
  "DataConverter.numSteps (MelodyConverter_new args) = BaseConverterArgs.numSteps args"
  "minPitch (MelodyConverter_new args) = MelodyConverterArgs.minPitch args"
  "maxPitch (MelodyConverter_new args) = MelodyConverterArgs.maxPitch args"
  "depth (MelodyConverter_new args) =
     MelodyConverterArgs.maxPitch args - MelodyConverterArgs.minPitch args + 3"
  by (simp_all add: MelodyConverter_new_def FIRST_PITCH_def)

text \<open>
  Claim C9. For a buffer whose rows have the converter's depth, whatever its entries,
  every note \<^verbatim>\<open>MelodyConverter.toNoteSequence\<close> returns starts at a step that is not
  negative, ends after it starts and not after the number of rows, and has a pitch in
  \<open>[minPitch, maxPitch]\<close>; and no note starts before the end of the note returned just
  before it.
\<close>

theorem toNoteSequence_well_formed:
  fixes oh :: "'b::linorder list list"
  assumes "list_all (\<lambda>row. int (length row) = depth (MelodyConverter_new args)) oh"
  shows "list_all (well_formed_note (MelodyConverter_new args) (int (length oh)))
           (notes (MelodyConverter_toNoteSequence (MelodyConverter_new args) oh)) \<and>
         \<not> starts_before_previous_end
             (notes (MelodyConverter_toNoteSequence (MelodyConverter_new args) oh))"
proof -
  let ?conv = "MelodyConverter_new args"
  let ?labels = "argMax oh"
  have labels: "list_all (\<lambda>l. 0 \<le> l \<and> (l < 2 \<or> l \<le> maxPitch ?conv - minPitch ?conv + 2)) ?labels"
    using argMax_labels [OF assms] by (simp add: list_all_iff add.commute)
  have init: "scan_invariant ?conv 0 None []"
    by (simp add: scan_invariant_def)
  obtain c ns where run: "toNoteSequence_loop ?conv ?labels 0 None [] = (c, ns)"
    by (cases "toNoteSequence_loop ?conv ?labels 0 None []")
  from toNoteSequence_loop_invariant [OF init _ labels] run
  have inv: "scan_invariant ?conv (length ?labels) c ns" by simp
  have len: "length ?labels = length oh" by (simp add: argMax_def)
  show ?thesis
  proof (cases c)
    case None
    with inv run len show ?thesis
      by (simp add: MelodyConverter_toNoteSequence_def NoteSequence_create_def scan_invariant_def)
  next
    case (Some c')
    with inv scan_invariant_close [of ?conv "length ?labels" c' ns] run len show ?thesis
      by (simp add: MelodyConverter_toNoteSequence_def NoteSequence_create_def)
  qed
qed

theorem toNoteSequence_well_formed_witness:
  "list_all (\<lambda>row. int (length row) = depth (MelodyConverter_new example_small_args))
     example_buffer \<and>
   notes (MelodyConverter_toNoteSequence (MelodyConverter_new example_small_args)
            example_buffer) = [example_note 60 0 2, example_note 61 3 5] \<and>
   list_all (well_formed_note (MelodyConverter_new example_small_args) 5)
     [example_note 60 0 2, example_note 61 3 5] \<and>
   \<not> starts_before_previous_end [example_note 60 0 2, example_note 61 3 5]"
proof -
  have a1: "list_all (\<lambda>row. int (length row) = depth (MelodyConverter_new example_small_args))
     example_buffer"
    by code_simp
  have a2: "notes (MelodyConverter_toNoteSequence (MelodyConverter_new example_small_args)
            example_buffer) = [example_note 60 0 2, example_note 61 3 5]"
    by code_simp
  have a3: "int (length example_buffer) = 5"
    by code_simp
  show ?thesis
    using toNoteSequence_well_formed [OF a1] a1 a2 a3 by simp
qed

section \<open>DrumsOneHotConverter: encoding and decoding a drum pattern\<close>












lemma length_argMax [simp]: "length (argMax oh) = length oh"
  by (simp add: argMax_def)






section \<open>MelodyConverter: encoding and decoding a melody\<close>





lemma length_mel_write [simp]: "length (mel_write this n mel) = length mel"
  by (simp add: mel_write_def)

lemma length_fold_mel_write [simp]: "length (fold (mel_write this) ns mel) = length mel"
  by (induction ns arbitrary: mel) simp_all


















end
